theory Spec2Isabelle
  imports Complex_Main
begin

section \<open>Geometry and arithmetic (Ped::Tvector, double)\<close>

text \<open>
  The planner handles positions as \<open>Ped::Tvector\<close> values built with the two-argument
  constructor from two \<open>double\<close> coordinates; the fields \<open>x\<close> and \<open>y\<close> of the source
  are called \<open>vx\<close> and \<open>vy\<close> here. The type \<open>'d\<close> stands for \<open>double\<close>.
\<close>

record 'd Tvector =
  vx :: 'd
  vy :: 'd

text \<open>
  The vector library and the arithmetic of \<open>double\<close> are not part of the sources at
  hand and are taken as a parameter: the value a floating literal denotes, the
  comparisons \<open><\<close> and \<open><=\<close> of two doubles, the difference of two vectors
  (\<open>operator-\<close> and \<open>operator-=\<close>), the length of a vector, and the polar construction
  from a direction and a magnitude. The planner is modelled over any such arithmetic and
  nothing is assumed about it, so that what is proved holds for the arithmetic of the
  machine, with its rounding, its infinities and its NaN.
\<close>

record 'd Arithmetic =
  literal :: "real \<Rightarrow> 'd"
  dless :: "'d \<Rightarrow> 'd \<Rightarrow> bool"
  dless_eq :: "'d \<Rightarrow> 'd \<Rightarrow> bool"
  Tvector_minus :: "'d Tvector \<Rightarrow> 'd Tvector \<Rightarrow> 'd Tvector"
  Tvector_length :: "'d Tvector \<Rightarrow> 'd"
  fromPolar :: "'d \<Rightarrow> 'd \<Rightarrow> 'd Tvector"

text \<open>
  Modelled from the spec: the arithmetic of Vector2D without rounding, over the real
  numbers (\<open>Ped::Tvector\<close> is library code that is not part of the sources at hand):
  componentwise difference, Euclidean length, and the vector of the given magnitude
  along the given direction, the direction being an angle in radians. The examples are
  evaluated in this arithmetic.
\<close>

definition exact_minus :: "real Tvector \<Rightarrow> real Tvector \<Rightarrow> real Tvector" where
  "exact_minus a b = \<lparr>vx = vx a - vx b, vy = vy a - vy b\<rparr>"

definition exact_length :: "real Tvector \<Rightarrow> real" where
  "exact_length v = sqrt (vx v * vx v + vy v * vy v)"

definition exact_fromPolar :: "real \<Rightarrow> real \<Rightarrow> real Tvector" where
  "exact_fromPolar angleIn radiusIn =
     \<lparr>vx = radiusIn * cos angleIn, vy = radiusIn * sin angleIn\<rparr>"

definition exact :: "real Arithmetic" where
  "exact =
     \<lparr>literal = (\<lambda>r. r), dless = (\<lambda>a b. a < b), dless_eq = (\<lambda>a b. a \<le> b),
      Tvector_minus = exact_minus, Tvector_length = exact_length,
      fromPolar = exact_fromPolar\<rparr>"


section \<open>Collaborators: agents, waiting queues, diagnostics, connections\<close>

text \<open>
  Objects live in heaps indexed by addresses (natural numbers); a pointer is an
  \<open>nat option\<close>, \<open>None\<close> being \<open>nullptr\<close>.
\<close>

record 'd Agent =
  aid :: int
  apos :: "'d Tvector"
  atype :: int
  awaypoints :: "nat list"
  disabledForces :: "string set"

record 'd WaitingQueue =
  qname :: string
  qpos :: "'d Tvector"
  qend :: "'d Tvector"
  qdir :: 'd
  qagents :: "nat list"

text \<open>
  Modelled from the spec: the queue's enqueue operation (\<open>WaitingQueue::enqueueAgent\<close> is
  not part of the sources at hand): it appends the agent to the line and returns the
  agent now immediately ahead, or none if this agent becomes the head.
\<close>

definition enqueueAgent :: "nat \<Rightarrow> 'd WaitingQueue \<Rightarrow> nat option \<times> 'd WaitingQueue" where
  "enqueueAgent a q =
     ((if qagents q = [] then None else Some (last (qagents q))),
      q\<lparr>qagents := qagents q @ [a]\<rparr>)"

definition isEmpty :: "'d WaitingQueue \<Rightarrow> bool" where
  "isEmpty q = (qagents q = [])"

text \<open>
  Modelled from the spec: \<open>Agent::disableForce\<close> (not part of the sources at hand)
  switches the named steering behaviour off.
\<close>

definition disableForce :: "string \<Rightarrow> 'd Agent \<Rightarrow> 'd Agent" where
  "disableForce f a = a\<lparr>disabledForces := insert f (disabledForces a)\<rparr>"

text \<open>
  A formatted \<open>QString\<close> is kept as its template together with the arguments handed to
  \<open>arg\<close>, in order. A diagnostic is a log macro applied to such a text.
\<close>

datatype Arg = ArgInt int | ArgStr string

datatype LogEntry =
    ERROR_LOG string "Arg list"
  | WARN_LOG string "Arg list"
  | DEBUG_LOG string "Arg list"

record 'd QueueingWaypoint =
  wname :: "string \<times> Arg list"
  wpos :: "'d Tvector"

text \<open>
  The argument of \<open>setDestination\<close> is a \<open>Waypoint*\<close>: null, a waypoint that is not a
  waiting queue (carrying what its \<open>toString\<close> prints), or a waiting queue.
\<close>

datatype WaypointPtr = NullWaypoint | PlainWaypoint string | QueueWaypoint nat

text \<open>
  Signal/slot wiring. A connection records the sender and the signal; the receiver is
  always the planner and the slot is fixed by the signal. Connecting twice gives two
  connections; disconnecting removes every connection of that sender and signal, and
  does nothing for a null sender.
\<close>

datatype Connection =
    AgentMayPassConn nat
  | QueueEndPositionChangedConn nat
  | PositionChangedConn nat

datatype Status = Unknown | Approaching | Queued | MayPass

record 'd World =
  agents :: "nat \<Rightarrow> 'd Agent"
  queues :: "nat \<Rightarrow> 'd WaitingQueue"
  agent :: "nat option"
  waitingQueue :: "nat option"
  currentWaypoint :: "'d QueueingWaypoint option"
  followedAgent :: "nat option"
  status :: Status
  connections :: "Connection list"
  diagnostics :: "LogEntry list"

definition logmsg :: "LogEntry \<Rightarrow> 'd World \<Rightarrow> 'd World" where
  "logmsg e w = w\<lparr>diagnostics := diagnostics w @ [e]\<rparr>"

definition connect :: "Connection \<Rightarrow> 'd World \<Rightarrow> 'd World" where
  "connect c w = w\<lparr>connections := connections w @ [c]\<rparr>"

definition disconnect ::
  "nat option \<Rightarrow> (nat \<Rightarrow> Connection) \<Rightarrow> 'd World \<Rightarrow> 'd World" where
  "disconnect sender sig w =
     (case sender of
        None \<Rightarrow> w
      | Some p \<Rightarrow> w\<lparr>connections := removeAll (sig p) (connections w)\<rparr>)"


section \<open>QueueingWaypointPlanner\<close>

text \<open>
  Every operation that dereferences a pointer returns an option: \<open>None\<close> is the
  undefined behaviour of dereferencing \<open>nullptr\<close>.
\<close>

definition QueueingWaypointPlanner ::
  "(nat \<Rightarrow> 'd Agent) \<Rightarrow> (nat \<Rightarrow> 'd WaitingQueue) \<Rightarrow> 'd World" where
  "QueueingWaypointPlanner ags qs =
     \<lparr>agents = ags, queues = qs, agent = None, waitingQueue = None,
      currentWaypoint = None, followedAgent = None, status = Unknown,
      connections = [], diagnostics = []\<rparr>"

definition addPrivateSpace :: "'d Arithmetic \<Rightarrow> 'd Tvector \<Rightarrow> 'd World \<Rightarrow> 'd Tvector option" where
  "addPrivateSpace ar queueEndIn w =
     (case waitingQueue w of
        None \<Rightarrow> None
      | Some q \<Rightarrow>
          Some (Tvector_minus ar queueEndIn
                  (fromPolar ar (qdir (queues w q)) (literal ar 0.7))))"

definition createWaypointName :: "'d World \<Rightarrow> (string \<times> Arg list) option" where
  "createWaypointName w =
     (case agent w of
        None \<Rightarrow> None
      | Some a \<Rightarrow>
          (case waitingQueue w of
             None \<Rightarrow> None
           | Some q \<Rightarrow>
               Some (''QueueHelper_A%1_Q%2'',
                     [ArgInt (aid (agents w a)), ArgStr (qname (queues w q))])))"

definition hasReachedQueueEnd :: "'d Arithmetic \<Rightarrow> 'd World \<Rightarrow> bool option" where
  "hasReachedQueueEnd ar w =
     (case waitingQueue w of
        None \<Rightarrow> Some False
      | Some q \<Rightarrow>
          (case agent w of
             None \<Rightarrow> None
           | Some a \<Rightarrow>
               Some (dless_eq ar
                       (Tvector_length ar
                          (Tvector_minus ar (qend (queues w q)) (apos (agents w a))))
                       (literal ar 2.0))))"

definition activateApproachingMode :: "'d World \<Rightarrow> 'd World option" where
  "activateApproachingMode w =
     (case agent w of
        None \<Rightarrow> None
      | Some a \<Rightarrow>
          (let w1 = logmsg (DEBUG_LOG ''Agent %1 enters Approaching Mode''
                              [ArgInt (aid (agents w a))]) w;
               w2 = w1\<lparr>status := Approaching\<rparr>
           in case createWaypointName w2 of
                None \<Rightarrow> None
              | Some waypointName \<Rightarrow>
                  (case waitingQueue w2 of
                     None \<Rightarrow> None
                   | Some q \<Rightarrow>
                       Some (w2\<lparr>currentWaypoint :=
                               Some \<lparr>wname = waypointName,
                                     wpos = qend (queues w2 q)\<rparr>\<rparr>))))"

definition activateQueueingMode :: "'d Arithmetic \<Rightarrow> 'd World \<Rightarrow> 'd World option" where
  "activateQueueingMode ar w =
     (case agent w of
        None \<Rightarrow> None
      | Some a \<Rightarrow>
          (let w1 = logmsg (DEBUG_LOG ''Agent %1 enters Queueing Mode''
                              [ArgInt (aid (agents w a))]) w;
               w2 = w1\<lparr>status := Queued\<rparr>
           in case createWaypointName w2 of
                None \<Rightarrow> None
              | Some waypointName \<Rightarrow>
                  (case waitingQueue w2 of
                     None \<Rightarrow> None
                   | Some q \<Rightarrow>
                       (let (ahead, q') = enqueueAgent a (queues w2 q);
                            w3 = w2\<lparr>queues := (queues w2)(q := q'),
                                    followedAgent := ahead\<rparr>;
                            placed =
                              (case ahead of
                                 Some f \<Rightarrow>
                                   (case addPrivateSpace ar (apos (agents w3 f)) w3 of
                                      None \<Rightarrow> None
                                    | Some p \<Rightarrow>
                                        Some (p, connect (PositionChangedConn f) w3))
                               | None \<Rightarrow> Some (qpos (queues w3 q), w3))
                        in case placed of
                             None \<Rightarrow> None
                           | Some (queueingPosition, w4) \<Rightarrow>
                               (let w5 = w4\<lparr>agents := (agents w4)
                                            (a := disableForce ''GroupGaze''
                                                   (disableForce ''GroupCoherence''
                                                     (disableForce ''Random''
                                                       (disableForce ''Social''
                                                          (agents w4 a)))))\<rparr>
                                in Some (w5\<lparr>currentWaypoint :=
                                          Some \<lparr>wname = waypointName,
                                                wpos = queueingPosition\<rparr>\<rparr>))))))"

definition onFollowedAgentPositionChanged ::
  "'d Arithmetic \<Rightarrow> 'd \<Rightarrow> 'd \<Rightarrow> 'd World \<Rightarrow> 'd World option" where
  "onFollowedAgentPositionChanged ar xIn yIn w =
     (case currentWaypoint w of
        None \<Rightarrow>
          Some (logmsg (ERROR_LOG
            ''Queued agent cannot update queueing position, because there's no waypoint set!''
            []) w)
      | Some wp \<Rightarrow>
          (case addPrivateSpace ar \<lparr>vx = xIn, vy = yIn\<rparr> w of
             None \<Rightarrow> None
           | Some followedPosition \<Rightarrow>
               if dless ar (Tvector_length ar (Tvector_minus ar followedPosition (wpos wp)))
                    (literal ar 0.4)
               then Some w
               else Some (w\<lparr>currentWaypoint := Some (wp\<lparr>wpos := followedPosition\<rparr>)\<rparr>)))"

definition onFollowedAgentLeftQueue :: "'d World \<Rightarrow> 'd World option" where
  "onFollowedAgentLeftQueue w =
     (let w1 = disconnect (followedAgent w) PositionChangedConn w
      in case waitingQueue w1 of
           None \<Rightarrow> None
         | Some q \<Rightarrow>
             (case currentWaypoint w1 of
                None \<Rightarrow> None
              | Some wp \<Rightarrow>
                  Some (w1\<lparr>currentWaypoint := Some (wp\<lparr>wpos := qpos (queues w1 q)\<rparr>)\<rparr>)))"

definition isAgent :: "nat option \<Rightarrow> int \<Rightarrow> 'd World \<Rightarrow> bool" where
  "isAgent p i w = (case p of None \<Rightarrow> False | Some a \<Rightarrow> i = aid (agents w a))"

definition onAgentMayPassQueue :: "int \<Rightarrow> 'd World \<Rightarrow> 'd World option" where
  "onAgentMayPassQueue i w =
     (if isAgent (agent w) i w then
        Some (disconnect (waitingQueue w) QueueEndPositionChangedConn
               (disconnect (waitingQueue w) AgentMayPassConn
                  (w\<lparr>status := MayPass\<rparr>)))
      else if isAgent (followedAgent w) i w then onFollowedAgentLeftQueue w
      else Some w)"

definition onQueueEndPositionChanged ::
  "'d Arithmetic \<Rightarrow> 'd \<Rightarrow> 'd \<Rightarrow> 'd World \<Rightarrow> 'd World option" where
  "onQueueEndPositionChanged ar xIn yIn w =
     (if status w \<noteq> Approaching then Some w
      else case hasReachedQueueEnd ar w of
             None \<Rightarrow> None
           | Some True \<Rightarrow> activateQueueingMode ar w
           | Some False \<Rightarrow>
               (case currentWaypoint w of
                  None \<Rightarrow> Some w
                | Some wp \<Rightarrow>
                    (case waitingQueue w of
                       None \<Rightarrow> None
                     | Some q \<Rightarrow>
                         (case (if \<not> isEmpty (queues w q)
                                then addPrivateSpace ar \<lparr>vx = xIn, vy = yIn\<rparr> w
                                else Some \<lparr>vx = xIn, vy = yIn\<rparr>) of
                            None \<Rightarrow> None
                          | Some newDestination \<Rightarrow>
                              Some (w\<lparr>currentWaypoint :=
                                      Some (wp\<lparr>wpos := newDestination\<rparr>)\<rparr>)))))"

definition reset :: "'d World \<Rightarrow> 'd World" where
  "reset w =
     (let w1 = disconnect (followedAgent w) PositionChangedConn w;
          w2 = disconnect (waitingQueue w1) QueueEndPositionChangedConn
                 (disconnect (waitingQueue w1) AgentMayPassConn w1)
      in w2\<lparr>status := Unknown, currentWaypoint := None, followedAgent := None\<rparr>)"

definition setAgent :: "nat option \<Rightarrow> 'd World \<Rightarrow> bool \<times> 'd World" where
  "setAgent agentIn w = (True, w\<lparr>agent := agentIn\<rparr>)"

definition setWaitingQueue :: "nat option \<Rightarrow> 'd World \<Rightarrow> 'd World" where
  "setWaitingQueue queueIn w =
     (let w1 = (reset w)\<lparr>waitingQueue := queueIn\<rparr>
      in case waitingQueue w1 of
           None \<Rightarrow> w1
         | Some q \<Rightarrow>
             connect (QueueEndPositionChangedConn q)
               (connect (AgentMayPassConn q) (w1\<lparr>status := Approaching\<rparr>)))"

definition setDestination :: "WaypointPtr \<Rightarrow> 'd World \<Rightarrow> 'd World" where
  "setDestination waypointIn w =
     (case waypointIn of
        QueueWaypoint q \<Rightarrow> setWaitingQueue (Some q) w
      | NullWaypoint \<Rightarrow>
          logmsg (ERROR_LOG
            ''Waypoint provided to QueueingWaypointPlanner isn't a waiting queue! (%1)''
            [ArgStr ''null'']) w
      | PlainWaypoint s \<Rightarrow>
          logmsg (ERROR_LOG
            ''Waypoint provided to QueueingWaypointPlanner isn't a waiting queue! (%1)''
            [ArgStr s]) w)"

definition hasCompletedWaypoint :: "'d Arithmetic \<Rightarrow> 'd World \<Rightarrow> bool option" where
  "hasCompletedWaypoint ar w =
     (case currentWaypoint w of
        None \<Rightarrow> Some True
      | Some wp \<Rightarrow>
          if status w = Approaching then
            (case hasReachedQueueEnd ar w of
               None \<Rightarrow> None
             | Some True \<Rightarrow> Some True
             | Some False \<Rightarrow> Some (status w = MayPass))
          else Some (status w = MayPass))"

definition getNextWaypoint ::
  "'d Arithmetic \<Rightarrow> 'd World \<Rightarrow> ('d QueueingWaypoint option \<times> 'd World) option" where
  "getNextWaypoint ar w =
     (case agent w of
        None \<Rightarrow>
          Some (None, logmsg (ERROR_LOG
            ''Cannot determine queueing waypoint without agent!'' []) w)
      | Some a \<Rightarrow>
          (case waitingQueue w of
             None \<Rightarrow>
               Some (None, logmsg (WARN_LOG
                 ''Cannot determine queueing waypoint without waiting queues!'' []) w)
           | Some q \<Rightarrow>
               (case hasReachedQueueEnd ar w of
                  None \<Rightarrow> None
                | Some r \<Rightarrow>
                    (case (if r then activateQueueingMode ar w
                           else activateApproachingMode w) of
                       None \<Rightarrow> None
                     | Some w' \<Rightarrow> Some (currentWaypoint w', w')))))"

definition getCurrentWaypoint ::
  "'d Arithmetic \<Rightarrow> 'd World \<Rightarrow> ('d QueueingWaypoint option \<times> 'd World) option" where
  "getCurrentWaypoint ar w =
     (case hasCompletedWaypoint ar w of
        None \<Rightarrow> None
      | Some True \<Rightarrow>
          (case getNextWaypoint ar w of
             None \<Rightarrow> None
           | Some (next, w') \<Rightarrow> Some (next, w'\<lparr>currentWaypoint := next\<rparr>))
      | Some False \<Rightarrow> Some (currentWaypoint w, w))"

definition hasCompletedDestination :: "'d World \<Rightarrow> bool \<times> 'd World" where
  "hasCompletedDestination w =
     (case waitingQueue w of
        None \<Rightarrow> (True, logmsg (WARN_LOG ''QueueingWaypointPlanner: No waiting queue set!'' []) w)
      | Some q \<Rightarrow> (status w = MayPass, w))"


section \<open>Event delivery\<close>

text \<open>
  Modelled from the spec: the event streams of the queue and of agents (the signal
  emission of the toolkit is not part of the sources at hand). An emitted signal runs
  the planner's slot once for every connection of that sender and signal which is
  still live when its turn comes; without a connection nothing is delivered.
\<close>

datatype 'd Signal =
    agentMayPass nat int
  | queueEndPositionChanged nat 'd 'd
  | positionChanged nat 'd 'd

fun connectionOf :: "'d Signal \<Rightarrow> Connection" where
  "connectionOf (agentMayPass q i) = AgentMayPassConn q"
| "connectionOf (queueEndPositionChanged q xIn yIn) = QueueEndPositionChangedConn q"
| "connectionOf (positionChanged a xIn yIn) = PositionChangedConn a"

fun slotOf :: "'d Arithmetic \<Rightarrow> 'd Signal \<Rightarrow> 'd World \<Rightarrow> 'd World option" where
  "slotOf ar (agentMayPass q i) = onAgentMayPassQueue i"
| "slotOf ar (queueEndPositionChanged q xIn yIn) = onQueueEndPositionChanged ar xIn yIn"
| "slotOf ar (positionChanged a xIn yIn) = onFollowedAgentPositionChanged ar xIn yIn"

fun deliver ::
  "nat \<Rightarrow> Connection \<Rightarrow> ('d World \<Rightarrow> 'd World option) \<Rightarrow> 'd World \<Rightarrow> 'd World option" where
  "deliver 0 c slot w = Some w"
| "deliver (Suc n) c slot w =
     (if c \<in> set (connections w)
      then (case slot w of None \<Rightarrow> None | Some w' \<Rightarrow> deliver n c slot w')
      else Some w)"

definition emit :: "'d Arithmetic \<Rightarrow> 'd Signal \<Rightarrow> 'd World \<Rightarrow> 'd World option" where
  "emit ar sig w =
     deliver (count_list (connections w) (connectionOf sig)) (connectionOf sig)
       (slotOf ar sig) w"

fun emits :: "'d Arithmetic \<Rightarrow> 'd Signal list \<Rightarrow> 'd World \<Rightarrow> 'd World option" where
  "emits ar [] w = Some w"
| "emits ar (sig # sigs) w =
     (case emit ar sig w of None \<Rightarrow> None | Some w' \<Rightarrow> emits ar sigs w')"

fun isQueueSignal :: "'d Signal \<Rightarrow> bool" where
  "isQueueSignal (agentMayPass q i) = True"
| "isQueueSignal (queueEndPositionChanged q xIn yIn) = True"
| "isQueueSignal (positionChanged a xIn yIn) = False"


section \<open>Reachable states\<close>

text \<open>
  The states a planner can be in: the constructor's state for any heap of agents and
  queues, closed under every operation of the planner that returns, under delivery of
  emitted signals, under direct invocation of each slot and mode switch, and under any
  change the rest of the simulation makes to the agents and queues.
\<close>

inductive reachable :: "'d Arithmetic \<Rightarrow> 'd World \<Rightarrow> bool" for ar where
  constructed: "reachable ar (QueueingWaypointPlanner ags qs)"
| environment: "reachable ar w \<Longrightarrow> reachable ar (w\<lparr>agents := ags, queues := qs\<rparr>)"
| by_setAgent: "reachable ar w \<Longrightarrow> reachable ar (snd (setAgent p w))"
| by_setDestination: "reachable ar w \<Longrightarrow> reachable ar (setDestination d w)"
| by_setWaitingQueue: "reachable ar w \<Longrightarrow> reachable ar (setWaitingQueue p w)"
| by_reset: "reachable ar w \<Longrightarrow> reachable ar (reset w)"
| by_getCurrentWaypoint:
    "reachable ar w \<Longrightarrow> getCurrentWaypoint ar w = Some (t, w') \<Longrightarrow> reachable ar w'"
| by_getNextWaypoint:
    "reachable ar w \<Longrightarrow> getNextWaypoint ar w = Some (t, w') \<Longrightarrow> reachable ar w'"
| by_hasCompletedDestination:
    "reachable ar w \<Longrightarrow> reachable ar (snd (hasCompletedDestination w))"
| by_emit: "reachable ar w \<Longrightarrow> emit ar sig w = Some w' \<Longrightarrow> reachable ar w'"
| by_slot: "reachable ar w \<Longrightarrow> slotOf ar sig w = Some w' \<Longrightarrow> reachable ar w'"
| by_onFollowedAgentLeftQueue:
    "reachable ar w \<Longrightarrow> onFollowedAgentLeftQueue w = Some w' \<Longrightarrow> reachable ar w'"
| by_activateApproachingMode:
    "reachable ar w \<Longrightarrow> activateApproachingMode w = Some w' \<Longrightarrow> reachable ar w'"
| by_activateQueueingMode:
    "reachable ar w \<Longrightarrow> activateQueueingMode ar w = Some w' \<Longrightarrow> reachable ar w'"

definition queueConnectionsCurrent :: "'d World \<Rightarrow> bool" where
  "queueConnectionsCurrent w =
     (\<forall>q. AgentMayPassConn q \<in> set (connections w)
           \<or> QueueEndPositionChangedConn q \<in> set (connections w)
         \<longrightarrow> waitingQueue w = Some q)"

definition plannerInvariant :: "'d World \<Rightarrow> bool" where
  "plannerInvariant w =
     ((status w = Queued \<longrightarrow> currentWaypoint w \<noteq> None)
      \<and> (status w = Unknown \<longrightarrow> currentWaypoint w = None)
      \<and> (currentWaypoint w \<noteq> None \<longrightarrow> waitingQueue w \<noteq> None)
      \<and> queueConnectionsCurrent w)"

text \<open>
  The states that follow a state \<open>w\<close> while no queue is assigned anew: \<open>w\<close> itself,
  closed under everything that \<open>reachable\<close> is closed under except
  \<open>setWaitingQueue\<close> and \<open>setDestination\<close> with a waiting queue. A state is silent
  towards queues when the planner holds no connection to a signal of any queue.
\<close>

inductive sameAssignment ::
  "'d Arithmetic \<Rightarrow> 'd World \<Rightarrow> 'd World \<Rightarrow> bool" for ar w where
  start: "sameAssignment ar w w"
| environment:
    "sameAssignment ar w v \<Longrightarrow> sameAssignment ar w (v\<lparr>agents := ags, queues := qs\<rparr>)"
| by_setAgent: "sameAssignment ar w v \<Longrightarrow> sameAssignment ar w (snd (setAgent p v))"
| by_reset: "sameAssignment ar w v \<Longrightarrow> sameAssignment ar w (reset v)"
| by_setDestination_null:
    "sameAssignment ar w v \<Longrightarrow> sameAssignment ar w (setDestination NullWaypoint v)"
| by_setDestination_plain:
    "sameAssignment ar w v \<Longrightarrow> sameAssignment ar w (setDestination (PlainWaypoint s) v)"
| by_getCurrentWaypoint:
    "sameAssignment ar w v \<Longrightarrow> getCurrentWaypoint ar v = Some (t, v')
       \<Longrightarrow> sameAssignment ar w v'"
| by_getNextWaypoint:
    "sameAssignment ar w v \<Longrightarrow> getNextWaypoint ar v = Some (t, v')
       \<Longrightarrow> sameAssignment ar w v'"
| by_hasCompletedDestination:
    "sameAssignment ar w v \<Longrightarrow> sameAssignment ar w (snd (hasCompletedDestination v))"
| by_emit: "sameAssignment ar w v \<Longrightarrow> emit ar sig v = Some v' \<Longrightarrow> sameAssignment ar w v'"
| by_slot: "sameAssignment ar w v \<Longrightarrow> slotOf ar sig v = Some v' \<Longrightarrow> sameAssignment ar w v'"
| by_onFollowedAgentLeftQueue:
    "sameAssignment ar w v \<Longrightarrow> onFollowedAgentLeftQueue v = Some v'
       \<Longrightarrow> sameAssignment ar w v'"
| by_activateApproachingMode:
    "sameAssignment ar w v \<Longrightarrow> activateApproachingMode v = Some v'
       \<Longrightarrow> sameAssignment ar w v'"
| by_activateQueueingMode:
    "sameAssignment ar w v \<Longrightarrow> activateQueueingMode ar v = Some v'
       \<Longrightarrow> sameAssignment ar w v'"

definition queueSilent :: "'d World \<Rightarrow> bool" where
  "queueSilent w =
     (\<forall>q. AgentMayPassConn q \<notin> set (connections w)
          \<and> QueueEndPositionChangedConn q \<notin> set (connections w))"


section \<open>AgentCluster\<close>

text \<open>
  Coordinates and sizes are real numbers in this part: \<open>dissolve\<close> compares stored
  numbers with zero only, and applies no arithmetic to a position that is not
  randomised. The fields \<open>id\<close> and \<open>distribution\<close> of the source are
  \<open>clusterId\<close> and the pair
  \<open>distributionWidth\<close>, \<open>distributionHeight\<close> here. The scene owns the heap of agents:
  addresses below \<open>allocated\<close> are in use, \<open>sceneAgents\<close> are the agents added to the
  scene, and \<open>rngCalls\<close> counts the values drawn from the random number generator.
\<close>

record AgentCluster =
  clusterId :: int
  position :: "real Tvector"
  count :: int
  distributionWidth :: real
  distributionHeight :: real
  agentType :: int
  shallCreateGroups :: bool
  waypoints :: "nat list"

record Scene =
  heap :: "nat \<Rightarrow> real Agent"
  allocated :: nat
  sceneAgents :: "nat list"
  rngCalls :: nat

text \<open>
  Modelled from the spec: the agent (\<open>Agent\<close> is not part of the sources at hand). A new
  agent takes the next free address, has the next id, stands at the origin and has no
  waypoints; \<open>setPosition\<close> and \<open>setType\<close> store their argument and \<open>addWaypoint\<close>
  appends to the agent's waypoints.
\<close>

definition newAgent :: "Scene \<Rightarrow> nat \<times> Scene" where
  "newAgent s =
     (allocated s,
      s\<lparr>heap := (heap s)(allocated s :=
             \<lparr>aid = int (allocated s), apos = \<lparr>vx = 0, vy = 0\<rparr>, atype = 0,
              awaypoints = [], disabledForces = {}\<rparr>),
        allocated := Suc (allocated s)\<rparr>)"

definition setPosition :: "real \<Rightarrow> real \<Rightarrow> real Agent \<Rightarrow> real Agent" where
  "setPosition px py a = a\<lparr>apos := \<lparr>vx = px, vy = py\<rparr>\<rparr>"

definition setType :: "int \<Rightarrow> real Agent \<Rightarrow> real Agent" where
  "setType t a = a\<lparr>atype := t\<rparr>"

definition addWaypoint :: "nat \<Rightarrow> real Agent \<Rightarrow> real Agent" where
  "addWaypoint wp a = a\<lparr>awaypoints := awaypoints a @ [wp]\<rparr>"

text \<open>
  Modelled from the spec: the random number generator (\<open>RNG\<close> is not part of the sources
  at hand). The generator is a sequence \<open>rng\<close> of numbers of the unit interval; a
  uniform distribution over \<open>[a, b)\<close> maps the next one into its range. The same
  formula is used when a negative width or height makes \<open>b\<close> smaller than \<open>a\<close>.
\<close>

definition uniform_real_distribution ::
  "(nat \<Rightarrow> real) \<Rightarrow> real \<Rightarrow> real \<Rightarrow> Scene \<Rightarrow> real \<times> Scene" where
  "uniform_real_distribution rng a b s =
     (a + (b - a) * rng (rngCalls s), s\<lparr>rngCalls := Suc (rngCalls s)\<rparr>)"

definition dissolveStep :: "(nat \<Rightarrow> real) \<Rightarrow> AgentCluster \<Rightarrow> Scene \<Rightarrow> nat \<times> Scene" where
  "dissolveStep rng c s =
     (let (a, s1) = newAgent s;
          (randomizedX, s2) =
             (if distributionWidth c \<noteq> 0
              then (let (r, s') = uniform_real_distribution rng
                                    (- distributionWidth c / 2) (distributionWidth c / 2) s1
                    in (vx (position c) + r, s'))
              else (vx (position c), s1));
          (randomizedY, s3) =
             (if distributionHeight c \<noteq> 0
              then (let (r, s') = uniform_real_distribution rng
                                    (- distributionHeight c / 2) (distributionHeight c / 2) s2
                    in (vy (position c) + r, s'))
              else (vy (position c), s2));
          s4 = s3\<lparr>heap := (heap s3)(a := setType (agentType c)
                                (setPosition randomizedX randomizedY (heap s3 a)))\<rparr>;
          s5 = s4\<lparr>heap := (heap s4)(a := fold addWaypoint (waypoints c) (heap s4 a))\<rparr>
      in (a, s5\<lparr>sceneAgents := sceneAgents s5 @ [a]\<rparr>))"

fun dissolveLoop ::
  "(nat \<Rightarrow> real) \<Rightarrow> AgentCluster \<Rightarrow> nat \<Rightarrow> nat list \<Rightarrow> Scene \<Rightarrow> nat list \<times> Scene" where
  "dissolveLoop rng c 0 as s = (as, s)"
| "dissolveLoop rng c (Suc n) as s =
     (let (a, s') = dissolveStep rng c s in dissolveLoop rng c n (as @ [a]) s')"

definition dissolve :: "(nat \<Rightarrow> real) \<Rightarrow> AgentCluster \<Rightarrow> Scene \<Rightarrow> nat list \<times> Scene" where
  "dissolve rng c s = dissolveLoop rng c (nat (count c)) [] s"

text \<open>
  What \<open>dissolve\<close> leaves in a created agent: the type and the waypoints of the
  cluster, and the position of the cluster when nothing is randomised.
\<close>

definition spawned :: "AgentCluster \<Rightarrow> real Agent \<Rightarrow> bool" where
  "spawned c ag \<longleftrightarrow>
     atype ag = agentType c \<and> awaypoints ag = waypoints c
     \<and> (distributionWidth c = 0 \<and> distributionHeight c = 0 \<longrightarrow> apos ag = position c)"


section \<open>A concrete scene\<close>

text \<open>
  The scene of the worked example: every queue is anchored at (0,0), ends at (0,10) and
  faces along (0,-1); queue 0 is empty and every other queue holds agent 1. The agent at
  address \<open>p\<close> has id \<open>p\<close>; agent 0 stands at (0,10.5), agent 2 at (0,20) and all the
  others at (0,3).
\<close>

definition exampleAgents :: "nat \<Rightarrow> real Agent" where
  "exampleAgents p =
     \<lparr>aid = int p,
      apos = \<lparr>vx = 0, vy = (if p = 0 then 10.5 else if p = 2 then 20 else 3)\<rparr>,
      atype = 0, awaypoints = [], disabledForces = {}\<rparr>"

definition exampleQueues :: "nat \<Rightarrow> real WaitingQueue" where
  "exampleQueues q =
     \<lparr>qname = ''Q'', qpos = \<lparr>vx = 0, vy = 0\<rparr>, qend = \<lparr>vx = 0, vy = 10\<rparr>,
      qdir = - pi / 2, qagents = (if q = 0 then [] else [1])\<rparr>"

definition exampleStart :: "real World" where
  "exampleStart = QueueingWaypointPlanner exampleAgents exampleQueues"


text \<open>
  States of the example: the planner of agent \<open>a\<close> right after queue \<open>q\<close> was assigned,
  and after its first query for the current waypoint; agent 2, approaching queue 0 with
  a target, moved by the simulation to (0,10.5); agent 0, queued in queue 1 behind
  agent 1, after its own pass permission; that state after agent 1 then moved to
  (0,50); and the state after the pass permission once the current waypoint has been
  queried again.
\<close>

definition exampleAssigned :: "nat \<Rightarrow> nat \<Rightarrow> real World" where
  "exampleAssigned a q = setWaitingQueue (Some q) (snd (setAgent (Some a) exampleStart))"

definition exampleQueried :: "nat \<Rightarrow> nat \<Rightarrow> real World" where
  "exampleQueried a q =
     (case getCurrentWaypoint exact (exampleAssigned a q) of
        Some (t, w) \<Rightarrow> w
      | None \<Rightarrow> exampleAssigned a q)"

definition exampleArrived :: "real World" where
  "exampleArrived =
     (exampleQueried 2 0)\<lparr>agents := (agents (exampleQueried 2 0))
        (2 := (agents (exampleQueried 2 0) 2)\<lparr>apos := \<lparr>vx = 0, vy = 10.5\<rparr>\<rparr>)\<rparr>"

definition examplePassed :: "real World" where
  "examplePassed =
     (case emit exact (agentMayPass 1 0) (exampleQueried 0 1) of
        Some w \<Rightarrow> w
      | None \<Rightarrow> exampleQueried 0 1)"

definition exampleMoved :: "real World" where
  "exampleMoved =
     (case emit exact (positionChanged 1 0 50) examplePassed of
        Some w \<Rightarrow> w
      | None \<Rightarrow> examplePassed)"


definition exampleRequeried :: "real World" where
  "exampleRequeried =
     (case getCurrentWaypoint exact examplePassed of
        Some (t, w) \<Rightarrow> w
      | None \<Rightarrow> examplePassed)"


text \<open>
  A cluster of two agents of type 1 at (3,4) with waypoints 5 and 6 and no spread, and
  a scene whose first three addresses are taken.
\<close>

definition exampleCluster :: AgentCluster where
  "exampleCluster =
     \<lparr>clusterId = 1, position = \<lparr>vx = 3, vy = 4\<rparr>, count = 2,
      distributionWidth = 0, distributionHeight = 0, agentType = 1,
      shallCreateGroups = True, waypoints = [5, 6]\<rparr>"

definition exampleScene :: Scene where
  "exampleScene = \<lparr>heap = exampleAgents, allocated = 3, sceneAgents = [0, 2], rngCalls = 0\<rparr>"


section \<open>Auxiliary facts\<close>

subsection \<open>Lengths without rounding\<close>

lemma exact_length_vertical: "exact_length \<lparr>vx = 0, vy = y\<rparr> = \<bar>y\<bar>"
  by (simp add: exact_length_def)

lemma exact_length_fromPolar: "exact_length (exact_fromPolar a r) = \<bar>r\<bar>"
proof -
  have e: "cos a * cos a + sin a * sin a = 1"
    using sin_cos_squared_add2 [of a] by (simp add: power2_eq_square)
  have "(r * cos a) * (r * cos a) + (r * sin a) * (r * sin a)
          = r * r * (cos a * cos a + sin a * sin a)"
    by (simp only: distrib_left mult_ac)
  also have "\<dots> = r * r" by (simp only: e mult_1_right)
  finally have sq: "(r * cos a) * (r * cos a) + (r * sin a) * (r * sin a) = r * r" .
  have "exact_length (exact_fromPolar a r)
          = sqrt ((r * cos a) * (r * cos a) + (r * sin a) * (r * sin a))"
    by (simp only: exact_length_def exact_fromPolar_def Tvector.select_convs)
  also have "\<dots> = sqrt (r * r)" by (simp only: sq)
  also have "\<dots> = \<bar>r\<bar>" by (rule real_sqrt_abs2)
  finally show ?thesis .
qed

lemmas exact_defs = exact_def exact_minus_def exact_fromPolar_def exact_length_vertical

subsection \<open>An invariant of the reachable states\<close>

lemmas planner_defs = plannerInvariant_def queueConnectionsCurrent_def

lemma inv_activateApproachingMode:
  "plannerInvariant w \<Longrightarrow> activateApproachingMode w = Some w' \<Longrightarrow> plannerInvariant w'"
  by (auto simp: planner_defs activateApproachingMode_def createWaypointName_def logmsg_def Let_def
      split: option.splits)

lemma inv_activateQueueingMode:
  "plannerInvariant w \<Longrightarrow> activateQueueingMode ar w = Some w' \<Longrightarrow> plannerInvariant w'"
  by (auto simp: planner_defs activateQueueingMode_def createWaypointName_def logmsg_def Let_def
      enqueueAgent_def addPrivateSpace_def connect_def
      split: option.splits if_splits prod.splits)

lemma inv_onFollowedAgentPositionChanged:
  "plannerInvariant w \<Longrightarrow> onFollowedAgentPositionChanged ar xIn yIn w = Some w' \<Longrightarrow> plannerInvariant w'"
  by (auto simp: planner_defs onFollowedAgentPositionChanged_def logmsg_def addPrivateSpace_def
      split: option.splits if_splits)

lemma inv_onFollowedAgentLeftQueue:
  "plannerInvariant w \<Longrightarrow> onFollowedAgentLeftQueue w = Some w' \<Longrightarrow> plannerInvariant w'"
  by (auto simp: planner_defs onFollowedAgentLeftQueue_def disconnect_def Let_def
      split: option.splits if_splits)

lemma inv_onAgentMayPassQueue:
  "plannerInvariant w \<Longrightarrow> onAgentMayPassQueue i w = Some w' \<Longrightarrow> plannerInvariant w'"
  using inv_onFollowedAgentLeftQueue [where w = w and w' = w']
  by (auto simp: planner_defs onAgentMayPassQueue_def disconnect_def
      split: option.splits if_splits)

lemma inv_onQueueEndPositionChanged:
  "plannerInvariant w \<Longrightarrow> onQueueEndPositionChanged ar xIn yIn w = Some w' \<Longrightarrow> plannerInvariant w'"
  using inv_activateQueueingMode [where w = w and w' = w']
  by (auto simp: onQueueEndPositionChanged_def split: option.splits if_splits bool.splits)
     (auto simp: planner_defs)

lemma inv_reset: "plannerInvariant w \<Longrightarrow> plannerInvariant (reset w)"
  by (auto simp: planner_defs reset_def disconnect_def Let_def split: option.splits)

lemma inv_setWaitingQueue: "plannerInvariant w \<Longrightarrow> plannerInvariant (setWaitingQueue p w)"
  by (auto simp: planner_defs setWaitingQueue_def reset_def disconnect_def connect_def Let_def
      split: option.splits)

lemma inv_getNextWaypoint:
  "plannerInvariant w \<Longrightarrow> getNextWaypoint ar w = Some (t, w') \<Longrightarrow>
     plannerInvariant w' \<and> (t = currentWaypoint w' \<or> t = None \<and> status w' = status w \<and> connections w' = connections w \<and> waitingQueue w' = waitingQueue w)"
  using inv_activateQueueingMode [where w = w and w' = w'] inv_activateApproachingMode [where w = w and w' = w']
  by (auto simp: getNextWaypoint_def logmsg_def planner_defs split: option.splits if_splits)


lemma inv_getCurrentWaypoint:
  assumes "plannerInvariant w" and "getCurrentWaypoint ar w = Some (t, w')"
  shows "plannerInvariant w'"
proof (cases "hasCompletedWaypoint ar w")
  case None
  with assms show ?thesis by (simp add: getCurrentWaypoint_def)
next
  case (Some b)
  show ?thesis
  proof (cases b)
    case False
    with Some assms show ?thesis by (simp add: getCurrentWaypoint_def)
  next
    case True
    with Some assms obtain w1 where n: "getNextWaypoint ar w = Some (t, w1)"
      and w': "w' = w1\<lparr>currentWaypoint := t\<rparr>"
      by (auto simp: getCurrentWaypoint_def split: option.splits)
    have notQueued: "currentWaypoint w = None \<or> status w \<noteq> Queued"
      using Some True
      by (auto simp: hasCompletedWaypoint_def split: option.splits if_splits bool.splits)
    from inv_getNextWaypoint [OF assms(1) n] notQueued assms(1) w'
    show ?thesis by (auto simp: planner_defs)
  qed
qed

lemma inv_slotOf:
  "plannerInvariant w \<Longrightarrow> slotOf ar sig w = Some w' \<Longrightarrow> plannerInvariant w'"
  by (cases sig)
     (auto intro: inv_onAgentMayPassQueue inv_onQueueEndPositionChanged
        inv_onFollowedAgentPositionChanged)

lemma inv_deliver:
  "plannerInvariant w \<Longrightarrow> deliver n c (slotOf ar sig) w = Some w' \<Longrightarrow> plannerInvariant w'"
proof (induction n arbitrary: w)
  case 0
  then show ?case by simp
next
  case (Suc n)
  then show ?case
    by (auto split: if_splits option.splits dest: inv_slotOf)
qed

lemma inv_emit:
  "plannerInvariant w \<Longrightarrow> emit ar sig w = Some w' \<Longrightarrow> plannerInvariant w'"
  unfolding emit_def by (rule inv_deliver)

lemma inv_constructed: "plannerInvariant (QueueingWaypointPlanner ags qs)"
  by (simp add: planner_defs QueueingWaypointPlanner_def)

lemma inv_setDestination: "plannerInvariant w \<Longrightarrow> plannerInvariant (setDestination d w)"
  using inv_setWaitingQueue
  by (cases d) (auto simp: setDestination_def logmsg_def planner_defs)

lemma reachable_invariant: "reachable ar w \<Longrightarrow> plannerInvariant w"
proof (induction rule: reachable.induct)
  case (constructed ags qs)
  show ?case by (rule inv_constructed)
next
  case (environment w qs ags)
  then show ?case by (simp add: planner_defs)
next
  case (by_setAgent w p)
  then show ?case by (simp add: planner_defs setAgent_def)
next
  case (by_hasCompletedDestination w)
  then show ?case
    by (auto simp: planner_defs hasCompletedDestination_def logmsg_def split: option.splits)
qed (blast intro: inv_setDestination inv_setWaitingQueue inv_reset inv_getCurrentWaypoint
       dest: inv_getNextWaypoint inv_emit inv_slotOf inv_onFollowedAgentLeftQueue
         inv_activateApproachingMode inv_activateQueueingMode)+

subsection \<open>Unfolding the operations on concrete states\<close>

lemmas example_defs = exampleAssigned_def exampleStart_def QueueingWaypointPlanner_def
  exampleAgents_def exampleQueues_def

lemmas op_defs = setWaitingQueue_def setAgent_def reset_def disconnect_def connect_def logmsg_def
  getCurrentWaypoint_def getNextWaypoint_def hasCompletedWaypoint_def hasReachedQueueEnd_def
  activateQueueingMode_def activateApproachingMode_def createWaypointName_def enqueueAgent_def
  addPrivateSpace_def disableForce_def exact_defs Let_def

lemma exampleQueried_step:
  "getCurrentWaypoint exact (exampleAssigned 0 0)
     = Some (currentWaypoint (exampleQueried 0 0), exampleQueried 0 0)"
  "getCurrentWaypoint exact (exampleAssigned 0 1)
     = Some (currentWaypoint (exampleQueried 0 1), exampleQueried 0 1)"
  "getCurrentWaypoint exact (exampleAssigned 2 0)
     = Some (currentWaypoint (exampleQueried 2 0), exampleQueried 2 0)"
  "getCurrentWaypoint exact (exampleAssigned 2 1)
     = Some (currentWaypoint (exampleQueried 2 1), exampleQueried 2 1)"
  by (simp_all add: exampleQueried_def example_defs op_defs)

lemma reachable_exampleAssigned: "reachable exact (exampleAssigned a q)"
  unfolding exampleAssigned_def exampleStart_def
  by (intro reachable.by_setWaitingQueue reachable.by_setAgent reachable.constructed)

lemma reachable_exampleQueried:
  "reachable exact (exampleQueried 0 0)" "reachable exact (exampleQueried 0 1)"
  "reachable exact (exampleQueried 2 0)" "reachable exact (exampleQueried 2 1)"
  using reachable.by_getCurrentWaypoint [OF reachable_exampleAssigned exampleQueried_step(1)]
    reachable.by_getCurrentWaypoint [OF reachable_exampleAssigned exampleQueried_step(2)]
    reachable.by_getCurrentWaypoint [OF reachable_exampleAssigned exampleQueried_step(3)]
    reachable.by_getCurrentWaypoint [OF reachable_exampleAssigned exampleQueried_step(4)]
  by simp_all

lemma exampleQueried_0_1:
  "exampleQueried 0 (Suc 0) =
     \<lparr>agents = exampleAgents(0 := (exampleAgents 0)
         \<lparr>disabledForces := {''GroupGaze'', ''GroupCoherence'', ''Random'', ''Social''}\<rparr>),
      queues = exampleQueues(Suc 0 := (exampleQueues (Suc 0))\<lparr>qagents := [Suc 0, 0]\<rparr>),
      agent = Some 0, waitingQueue = Some (Suc 0),
      currentWaypoint = Some \<lparr>wname = (''QueueHelper_A%1_Q%2'', [ArgInt 0, ArgStr ''Q'']),
                              wpos = \<lparr>vx = 0, vy = 3.7\<rparr>\<rparr>,
      followedAgent = Some (Suc 0), status = Queued,
      connections = [AgentMayPassConn (Suc 0), QueueEndPositionChangedConn (Suc 0),
                     PositionChangedConn (Suc 0)],
      diagnostics = [DEBUG_LOG ''Agent %1 enters Queueing Mode'' [ArgInt 0]]\<rparr>"
  by (simp add: exampleQueried_def example_defs op_defs)

lemma examplePassed_eq:
  "emit exact (agentMayPass 1 0) (exampleQueried 0 1) = Some examplePassed"
  "examplePassed = (exampleQueried 0 (Suc 0))\<lparr>status := MayPass,
      connections := [PositionChangedConn (Suc 0)]\<rparr>"
  by (simp_all add: examplePassed_def exampleQueried_0_1 emit_def onAgentMayPassQueue_def
        isAgent_def disconnect_def exampleAgents_def)

lemma exampleRequeried_step:
  "getCurrentWaypoint exact examplePassed
     = Some (currentWaypoint exampleRequeried, exampleRequeried)"
  "status exampleRequeried = Queued"
  "followedAgent exampleRequeried = Some 0"
  "qagents (queues exampleRequeried 1) = [1, 0, 0]"
  "connections exampleRequeried = [PositionChangedConn 1, PositionChangedConn 0]"
  by (simp_all add: exampleRequeried_def examplePassed_eq(2) exampleQueried_0_1
        exampleAgents_def exampleQueues_def op_defs)

subsection \<open>Signals without a connection\<close>

lemma deliver_not_connected: "c \<notin> set (connections w) \<Longrightarrow> deliver n c slot w = Some w"
  by (cases n) simp_all

lemma emit_not_connected:
  "connectionOf sig \<notin> set (connections w) \<Longrightarrow> emit ar sig w = Some w"
  by (simp add: emit_def deliver_not_connected)

lemma emits_not_connected:
  "\<forall>sig \<in> set sigs. connectionOf sig \<notin> set (connections w) \<Longrightarrow> emits ar sigs w = Some w"
  by (induction sigs) (simp_all add: emit_not_connected)

subsection \<open>Silence towards queues\<close>

lemma silent_activateApproachingMode:
  "queueSilent w \<Longrightarrow> activateApproachingMode w = Some w' \<Longrightarrow> queueSilent w'"
  by (auto simp: queueSilent_def activateApproachingMode_def createWaypointName_def logmsg_def
        Let_def split: option.splits)

lemma silent_activateQueueingMode:
  "queueSilent w \<Longrightarrow> activateQueueingMode ar w = Some w' \<Longrightarrow> queueSilent w'"
  by (auto simp: queueSilent_def activateQueueingMode_def createWaypointName_def logmsg_def
        Let_def enqueueAgent_def addPrivateSpace_def connect_def
      split: option.splits if_splits prod.splits)

lemma silent_onFollowedAgentPositionChanged:
  "queueSilent w \<Longrightarrow> onFollowedAgentPositionChanged ar xIn yIn w = Some w' \<Longrightarrow> queueSilent w'"
  by (auto simp: queueSilent_def onFollowedAgentPositionChanged_def logmsg_def
        addPrivateSpace_def split: option.splits if_splits)

lemma silent_onFollowedAgentLeftQueue:
  "queueSilent w \<Longrightarrow> onFollowedAgentLeftQueue w = Some w' \<Longrightarrow> queueSilent w'"
  by (auto simp: queueSilent_def onFollowedAgentLeftQueue_def disconnect_def Let_def
      split: option.splits if_splits)

lemma silent_onAgentMayPassQueue:
  "queueSilent w \<Longrightarrow> onAgentMayPassQueue i w = Some w' \<Longrightarrow> queueSilent w'"
  using silent_onFollowedAgentLeftQueue [where w = w and w' = w']
  by (auto simp: queueSilent_def onAgentMayPassQueue_def disconnect_def
      split: option.splits if_splits)

lemma silent_onQueueEndPositionChanged:
  "queueSilent w \<Longrightarrow> onQueueEndPositionChanged ar xIn yIn w = Some w' \<Longrightarrow> queueSilent w'"
  using silent_activateQueueingMode [where w = w and w' = w']
  by (auto simp: onQueueEndPositionChanged_def split: option.splits if_splits bool.splits)
     (auto simp: queueSilent_def)

lemma silent_reset: "queueSilent w \<Longrightarrow> queueSilent (reset w)"
  by (auto simp: queueSilent_def reset_def disconnect_def Let_def split: option.splits)

lemma silent_getNextWaypoint:
  "queueSilent w \<Longrightarrow> getNextWaypoint ar w = Some (t, w') \<Longrightarrow> queueSilent w'"
  using silent_activateQueueingMode [where w = w and w' = w']
    silent_activateApproachingMode [where w = w and w' = w']
  by (auto simp: getNextWaypoint_def logmsg_def queueSilent_def split: option.splits if_splits)

lemma silent_getCurrentWaypoint:
  assumes "queueSilent w" and "getCurrentWaypoint ar w = Some (t, w')"
  shows "queueSilent w'"
proof (cases "hasCompletedWaypoint ar w")
  case None
  with assms show ?thesis by (simp add: getCurrentWaypoint_def)
next
  case (Some b)
  show ?thesis
  proof (cases b)
    case False
    with Some assms show ?thesis by (simp add: getCurrentWaypoint_def)
  next
    case True
    with Some assms obtain w1 where n: "getNextWaypoint ar w = Some (t, w1)"
      and w': "w' = w1\<lparr>currentWaypoint := t\<rparr>"
      by (auto simp: getCurrentWaypoint_def split: option.splits)
    from silent_getNextWaypoint [OF assms(1) n] w' show ?thesis
      by (simp add: queueSilent_def)
  qed
qed

lemma silent_slotOf:
  "queueSilent w \<Longrightarrow> slotOf ar sig w = Some w' \<Longrightarrow> queueSilent w'"
  by (cases sig)
     (auto intro: silent_onAgentMayPassQueue silent_onQueueEndPositionChanged
        silent_onFollowedAgentPositionChanged)

lemma silent_deliver:
  "queueSilent w \<Longrightarrow> deliver n c (slotOf ar sig) w = Some w' \<Longrightarrow> queueSilent w'"
proof (induction n arbitrary: w)
  case 0
  then show ?case by simp
next
  case (Suc n)
  then show ?case
    by (auto split: if_splits option.splits dest: silent_slotOf)
qed

lemma silent_emit:
  "queueSilent w \<Longrightarrow> emit ar sig w = Some w' \<Longrightarrow> queueSilent w'"
  unfolding emit_def by (rule silent_deliver)

lemma sameAssignment_silent:
  "sameAssignment ar w v \<Longrightarrow> queueSilent w \<Longrightarrow> queueSilent v"
proof (induction rule: sameAssignment.induct)
  case start
  then show ?case by simp
next
  case (environment v qs ags)
  then show ?case by (simp add: queueSilent_def)
next
  case (by_setAgent v p)
  then show ?case by (simp add: queueSilent_def setAgent_def)
next
  case (by_reset v)
  then show ?case by (simp add: silent_reset)
next
  case (by_setDestination_null v)
  then show ?case by (simp add: queueSilent_def setDestination_def logmsg_def)
next
  case (by_setDestination_plain v s)
  then show ?case by (simp add: queueSilent_def setDestination_def logmsg_def)
next
  case (by_hasCompletedDestination v)
  then show ?case
    by (auto simp: queueSilent_def hasCompletedDestination_def logmsg_def split: option.splits)
qed (blast dest: silent_getCurrentWaypoint silent_getNextWaypoint silent_emit silent_slotOf
       silent_onFollowedAgentLeftQueue silent_activateApproachingMode
       silent_activateQueueingMode)+

lemma silent_emit_queue_signal:
  "queueSilent w \<Longrightarrow> isQueueSignal sig \<Longrightarrow> emit ar sig w = Some w"
  by (cases sig) (auto simp: queueSilent_def intro: emit_not_connected)

subsection \<open>The loop of dissolve\<close>

lemma fold_addWaypoint:
  "fold addWaypoint wps ag = ag\<lparr>awaypoints := awaypoints ag @ wps\<rparr>"
  by (induction wps arbitrary: ag) (simp_all add: addWaypoint_def)

lemma dissolveStep_effect:
  assumes "dissolveStep rng c s = (a, s1)"
  shows "a = allocated s \<and> allocated s1 = Suc (allocated s)
     \<and> spawned c (heap s1 a)
     \<and> (\<forall>p. p \<noteq> a \<longrightarrow> heap s1 p = heap s p)
     \<and> sceneAgents s1 = sceneAgents s @ [a]"
  using assms
  by (auto simp: dissolveStep_def newAgent_def uniform_real_distribution_def setType_def
        setPosition_def fold_addWaypoint spawned_def Let_def
      split: if_splits prod.splits)

lemma dissolveLoop_effect:
  "dissolveLoop rng c n acc s = (as, s') \<Longrightarrow>
     as = acc @ [allocated s ..< allocated s + n]
     \<and> allocated s' = allocated s + n
     \<and> (\<forall>p < allocated s. heap s' p = heap s p)
     \<and> (\<forall>a. allocated s \<le> a \<and> a < allocated s + n \<longrightarrow> spawned c (heap s' a))
     \<and> sceneAgents s' = sceneAgents s @ [allocated s ..< allocated s + n]"
proof (induction n arbitrary: acc s)
  case 0
  then show ?case by auto
next
  case (Suc n)
  obtain a s1 where step: "dissolveStep rng c s = (a, s1)" by (cases "dissolveStep rng c s")
  with Suc.prems have loop: "dissolveLoop rng c n (acc @ [a]) s1 = (as, s')" by simp
  note e = dissolveStep_effect [OF step]
  note ih = Suc.IH [OF loop]
  have u: "[allocated s ..< allocated s + Suc n]
             = allocated s # [Suc (allocated s) ..< Suc (allocated s) + n]"
    by (simp add: upt_conv_Cons)
  have old: "\<forall>p < allocated s. heap s' p = heap s p"
    using e ih by auto
  have new: "\<forall>b. allocated s \<le> b \<and> b < allocated s + Suc n \<longrightarrow> spawned c (heap s' b)"
  proof (intro allI impI)
    fix b assume b: "allocated s \<le> b \<and> b < allocated s + Suc n"
    show "spawned c (heap s' b)"
    proof (cases "b = allocated s")
      case True
      with e ih have "heap s' b = heap s1 a" by auto
      with e show ?thesis by auto
    next
      case False
      with b e ih show ?thesis by auto
    qed
  qed
  from e ih old new u show ?case by simp
qed


section \<open>Pass permission for an unrelated agent\<close>

text \<open>
  C9. A pass-permission event whose id is neither the id of the controlled agent nor the
  id of the followed agent (in particular when no agent or no followed agent is bound)
  changes nothing: the handler returns the very state it was given.
\<close>

theorem onAgentMayPassQueue_unrelated_id:
  assumes "\<forall>a. agent w = Some a \<longrightarrow> i \<noteq> aid (agents w a)"
    and "\<forall>f. followedAgent w = Some f \<longrightarrow> i \<noteq> aid (agents w f)"
  shows "onAgentMayPassQueue i w = Some w"
  using assms by (auto simp: onAgentMayPassQueue_def isAgent_def split: option.splits)

theorem onAgentMayPassQueue_unrelated_id_witness:
  "onAgentMayPassQueue 7 (snd (setAgent (Some 0) exampleStart))
     = Some (snd (setAgent (Some 0) exampleStart))"
  by (rule onAgentMayPassQueue_unrelated_id)
     (simp_all add: setAgent_def exampleStart_def QueueingWaypointPlanner_def exampleAgents_def)


section \<open>Destinations that are not waiting queues\<close>

text \<open>
  C8. For a destination that is null or not a waiting queue, \<open>setDestination\<close> only
  appends one error diagnostic: it returns normally, and agents, queues, the bound
  agent, the waiting queue, the phase, the target, the followed agent and the
  connections are those of the state before the call.
\<close>

theorem setDestination_not_a_queue:
  "setDestination NullWaypoint w =
     w\<lparr>diagnostics := diagnostics w @
        [ERROR_LOG ''Waypoint provided to QueueingWaypointPlanner isn't a waiting queue! (%1)''
           [ArgStr ''null'']]\<rparr>
   \<and> setDestination (PlainWaypoint s) w =
     w\<lparr>diagnostics := diagnostics w @
        [ERROR_LOG ''Waypoint provided to QueueingWaypointPlanner isn't a waiting queue! (%1)''
           [ArgStr s]]\<rparr>"
  by (simp add: setDestination_def logmsg_def)

theorem setDestination_not_a_queue_witness:
  "setDestination NullWaypoint exampleStart =
     exampleStart\<lparr>diagnostics :=
        [ERROR_LOG ''Waypoint provided to QueueingWaypointPlanner isn't a waiting queue! (%1)''
           [ArgStr ''null'']]\<rparr>
   \<and> setDestination (PlainWaypoint ''Waypoint W'') exampleStart =
     exampleStart\<lparr>diagnostics :=
        [ERROR_LOG ''Waypoint provided to QueueingWaypointPlanner isn't a waiting queue! (%1)''
           [ArgStr ''Waypoint W'']]\<rparr>"
  using setDestination_not_a_queue [of exampleStart "''Waypoint W''"]
  by (simp add: exampleStart_def QueueingWaypointPlanner_def)


section \<open>Targets and phases\<close>

text \<open>
  C7, as stated, fails: right after a queue is assigned the phase is Approaching and
  there is no target; the target is only created by the first query for the current
  waypoint.
\<close>

theorem approaching_without_target:
  "reachable exact (exampleAssigned 0 0)
   \<and> status (exampleAssigned 0 0) = Approaching
   \<and> currentWaypoint (exampleAssigned 0 0) = None"
  using reachable_exampleAssigned [of 0 0] by (simp add: example_defs op_defs)


text \<open>
  C7. In every reachable state, the target is non-null whenever the phase is Queued.
\<close>

theorem queued_has_target:
  assumes "reachable ar w" and "status w = Queued"
  shows "currentWaypoint w \<noteq> None"
  using reachable_invariant [OF assms(1)] assms(2) by (simp add: plannerInvariant_def)

theorem queued_has_target_witness:
  "reachable exact (exampleQueried 0 0) \<and> status (exampleQueried 0 0) = Queued
   \<and> currentWaypoint (exampleQueried 0 0) \<noteq> None"
proof -
  have r: "reachable exact (exampleQueried 0 0)" by (rule reachable_exampleQueried)
  have s: "status (exampleQueried 0 0) = Queued"
    by (simp add: exampleQueried_def example_defs op_defs)
  from r s queued_has_target [OF r s] show ?thesis by simp
qed


section \<open>Assigning a queue\<close>






section \<open>Reaching the end of the queue\<close>

text \<open>
  C1, as stated, fails for \<open>hasCompletedWaypoint\<close>: it is a pure query. For an agent
  approaching with a target and within 2.0 of the queue's end it answers true, and the
  phase is still Approaching and the agent is not enqueued.
\<close>

theorem hasCompletedWaypoint_no_transition_counterexample:
  "agent exampleArrived = Some 2 \<and> waitingQueue exampleArrived = Some 0
   \<and> currentWaypoint exampleArrived \<noteq> None
   \<and> dless_eq exact
         (Tvector_length exact (Tvector_minus exact (qend (queues exampleArrived 0))
                                                    (apos (agents exampleArrived 2))))
         (literal exact 2.0)
   \<and> hasCompletedWaypoint exact exampleArrived = Some True
   \<and> status exampleArrived = Approaching
   \<and> qagents (queues exampleArrived 0) = []"
  by (simp add: exampleArrived_def exampleQueried_def example_defs op_defs)


text \<open>
  C1. For a planner in a reachable state with an agent and a queue whose agent is within
  2.0 of the queue's end position (the length the arithmetic computes for the difference
  of the two positions is \<open><= 2.0\<close>), the next \<open>getCurrentWaypoint\<close> returns a target and
  a state whose phase is Queued. If the phase was Queued already, that state is the
  state before. Otherwise \<open>hasCompletedWaypoint\<close> answers true beforehand, and the state
  is the one \<open>activateQueueingMode\<close> produces, with the agent appended to the queue
  once. In the resulting state \<open>hasCompletedWaypoint\<close> answers false and a further
  \<open>getCurrentWaypoint\<close> returns the same target and leaves the state, hence the queue,
  as it is.
\<close>

theorem getCurrentWaypoint_enqueues_once:
  assumes "reachable ar w" and "agent w = Some a" and "waitingQueue w = Some q"
    and "dless_eq ar
           (Tvector_length ar (Tvector_minus ar (qend (queues w q)) (apos (agents w a))))
           (literal ar 2.0)"
  shows "\<exists>wp w'. getCurrentWaypoint ar w = Some (Some wp, w')
         \<and> status w' = Queued
         \<and> (if status w = Queued then w' = w
              else hasCompletedWaypoint ar w = Some True
                   \<and> activateQueueingMode ar w = Some w'
                   \<and> qagents (queues w' q) = qagents (queues w q) @ [a])
         \<and> hasCompletedWaypoint ar w' = Some False
         \<and> getCurrentWaypoint ar w' = Some (Some wp, w')"
proof (cases "status w = Queued")
  case True
  with reachable_invariant [OF assms(1)] show ?thesis
    by (auto simp: plannerInvariant_def getCurrentWaypoint_def hasCompletedWaypoint_def)
next
  case False
  with reachable_invariant [OF assms(1)] have "currentWaypoint w = None \<or> status w \<noteq> Unknown"
    by (auto simp: plannerInvariant_def)
  with False assms(2-4) show ?thesis
    by (cases "status w")
       (auto simp: getCurrentWaypoint_def getNextWaypoint_def hasCompletedWaypoint_def
          hasReachedQueueEnd_def activateQueueingMode_def createWaypointName_def logmsg_def
          enqueueAgent_def addPrivateSpace_def connect_def Let_def
        split: option.splits)
qed

theorem getCurrentWaypoint_enqueues_once_witness:
  "\<exists>wp w'. getCurrentWaypoint exact exampleArrived = Some (Some wp, w')
         \<and> status w' = Queued
         \<and> hasCompletedWaypoint exact exampleArrived = Some True
         \<and> activateQueueingMode exact exampleArrived = Some w'
         \<and> qagents (queues w' 0) = [2]
         \<and> hasCompletedWaypoint exact w' = Some False
         \<and> getCurrentWaypoint exact w' = Some (Some wp, w')"
proof -
  have r: "reachable exact exampleArrived"
    using reachable.environment [OF reachable_exampleQueried(3),
        where ags = "agents exampleArrived" and qs = "queues (exampleQueried 2 0)"]
    by (simp add: exampleArrived_def)
  have a: "agent exampleArrived = Some 2" and q: "waitingQueue exampleArrived = Some 0"
    and s: "status exampleArrived = Approaching"
    and e: "qagents (queues exampleArrived 0) = []"
    by (simp_all add: exampleArrived_def exampleQueried_def example_defs op_defs)
  have n: "dless_eq exact
             (Tvector_length exact (Tvector_minus exact (qend (queues exampleArrived 0))
                                                        (apos (agents exampleArrived 2))))
             (literal exact 2.0)"
    by (simp add: exampleArrived_def exampleQueried_def example_defs op_defs)
  from getCurrentWaypoint_enqueues_once [OF r a q n] s e show ?thesis by simp
qed


section \<open>Entering the queue\<close>

text \<open>
  C4. For a planner with an agent and a queue, \<open>activateQueueingMode\<close> returns a state
  whose phase is Queued, whose followed agent is the agent the queue's enqueue operation
  returned and whose queue has the agent appended. If an agent ahead was returned, the
  new target lies at that agent's position minus the personal-space offset (the polar
  construction from the queue's direction and 0.7, which without rounding is a vector
  of length 0.7) and the planner is connected to its position signal; otherwise the new
  target lies at the queue's position. The forces Social, Random, GroupCoherence and
  GroupGaze of the agent are disabled. In the worked example (queue at (0,0) ending at
  (0,10), agent at (0,10.5), at distance 0.5 from the end, empty queue) the first query
  for the current waypoint yields the target (0,0).
\<close>

theorem activateQueueingMode_effect:
  assumes "agent w = Some a" and "waitingQueue w = Some q"
  shows "(\<exists>w'. activateQueueingMode ar w = Some w'
          \<and> status w' = Queued
          \<and> followedAgent w' = fst (enqueueAgent a (queues w q))
          \<and> queues w' = (queues w)(q := snd (enqueueAgent a (queues w q)))
          \<and> (case followedAgent w' of
                Some f \<Rightarrow>
                  map_option wpos (currentWaypoint w')
                    = Some (Tvector_minus ar (apos (agents w f))
                              (fromPolar ar (qdir (queues w q)) (literal ar 0.7)))
                  \<and> PositionChangedConn f \<in> set (connections w')
              | None \<Rightarrow>
                  map_option wpos (currentWaypoint w') = Some (qpos (queues w q)))
          \<and> {''Social'', ''Random'', ''GroupCoherence'', ''GroupGaze''}
                \<subseteq> disabledForces (agents w' a))
     \<and> Tvector_length exact (fromPolar exact direction (literal exact 0.7)) = 0.7
     \<and> Tvector_length exact (Tvector_minus exact (qend (queues (exampleAssigned 0 0) 0))
                                     (apos (agents (exampleAssigned 0 0) 0))) = 0.5
     \<and> map_option (map_option wpos \<circ> fst) (getCurrentWaypoint exact (exampleAssigned 0 0))
          = Some (Some \<lparr>vx = 0, vy = 0\<rparr>)"
proof -
  have ex: "map_option (map_option wpos \<circ> fst) (getCurrentWaypoint exact (exampleAssigned 0 0))
          = Some (Some \<lparr>vx = 0, vy = 0\<rparr>)"
    by (simp add: example_defs op_defs)
  have d: "Tvector_length exact (Tvector_minus exact (qend (queues (exampleAssigned 0 0) 0))
                                     (apos (agents (exampleAssigned 0 0) 0))) = 0.5"
    by (simp add: example_defs op_defs)
  have l: "Tvector_length exact (fromPolar exact direction (literal exact 0.7)) = 0.7"
    by (simp add: exact_def exact_length_fromPolar)
  from assms have "\<exists>w'. activateQueueingMode ar w = Some w'
          \<and> status w' = Queued
          \<and> followedAgent w' = fst (enqueueAgent a (queues w q))
          \<and> queues w' = (queues w)(q := snd (enqueueAgent a (queues w q)))
          \<and> (case followedAgent w' of
                Some f \<Rightarrow>
                  map_option wpos (currentWaypoint w')
                    = Some (Tvector_minus ar (apos (agents w f))
                              (fromPolar ar (qdir (queues w q)) (literal ar 0.7)))
                  \<and> PositionChangedConn f \<in> set (connections w')
              | None \<Rightarrow>
                  map_option wpos (currentWaypoint w') = Some (qpos (queues w q)))
          \<and> {''Social'', ''Random'', ''GroupCoherence'', ''GroupGaze''}
                \<subseteq> disabledForces (agents w' a)"
    by (auto simp: activateQueueingMode_def createWaypointName_def logmsg_def
          enqueueAgent_def addPrivateSpace_def connect_def disableForce_def Let_def
        split: option.splits)
  with ex d l show ?thesis by (intro conjI)
qed

theorem activateQueueingMode_effect_witness:
  "\<exists>w'. activateQueueingMode exact (exampleAssigned 0 1) = Some w'
          \<and> status w' = Queued
          \<and> followedAgent w' = Some 1
          \<and> qagents (queues w' 1) = [1, 0]
          \<and> map_option wpos (currentWaypoint w') = Some \<lparr>vx = 0, vy = 3.7\<rparr>
          \<and> PositionChangedConn 1 \<in> set (connections w')
          \<and> {''Social'', ''Random'', ''GroupCoherence'', ''GroupGaze''}
                \<subseteq> disabledForces (agents w' 0)"
proof -
  have a: "agent (exampleAssigned 0 1) = Some 0" and q: "waitingQueue (exampleAssigned 0 1) = Some 1"
    by (simp_all add: example_defs op_defs)
  have e: "enqueueAgent 0 (queues (exampleAssigned 0 (Suc 0)) (Suc 0))
             = (Some (Suc 0), (exampleQueues 1)\<lparr>qagents := [1, 0]\<rparr>)"
    by (simp add: example_defs op_defs)
  have g: "Tvector_minus exact (apos (agents (exampleAssigned 0 (Suc 0)) (Suc 0)))
             (fromPolar exact (qdir (queues (exampleAssigned 0 (Suc 0)) (Suc 0)))
                (literal exact (7 / 10)))
           = \<lparr>vx = 0, vy = 3.7\<rparr>"
    by (simp add: example_defs op_defs)
  from activateQueueingMode_effect [OF a q, where ar = exact and direction = 0] show ?thesis
    by (auto simp: e g)
qed


section \<open>Following the agent ahead\<close>

text \<open>
  C5. In every reachable state with a target, a queue is assigned, and a position event
  \<open>(xIn, yIn)\<close> of the followed agent is handled as follows. The candidate is the
  event's position minus the personal-space offset, the polar construction from the
  queue's direction and 0.7 (without rounding a vector of length 0.7). The distance is
  the length the arithmetic computes for the difference of the candidate and the
  target's position. If the arithmetic finds it strictly below 0.4 the state is left
  unchanged; otherwise only the target's position changes, and it becomes the
  candidate.
\<close>

theorem onFollowedAgentPositionChanged_hysteresis:
  assumes "reachable ar w" and "currentWaypoint w = Some wp"
  shows "(\<exists>q. waitingQueue w = Some q
     \<and> onFollowedAgentPositionChanged ar xIn yIn w =
         Some (if dless ar
                    (Tvector_length ar
                       (Tvector_minus ar
                          (Tvector_minus ar \<lparr>vx = xIn, vy = yIn\<rparr>
                             (fromPolar ar (qdir (queues w q)) (literal ar 0.7)))
                          (wpos wp)))
                    (literal ar 0.4)
               then w
               else w\<lparr>currentWaypoint := Some (wp\<lparr>wpos :=
                        Tvector_minus ar \<lparr>vx = xIn, vy = yIn\<rparr>
                          (fromPolar ar (qdir (queues w q)) (literal ar 0.7))\<rparr>)\<rparr>))
     \<and> Tvector_length exact (fromPolar exact direction (literal exact 0.7)) = 0.7"
proof -
  have l: "Tvector_length exact (fromPolar exact direction (literal exact 0.7)) = 0.7"
    by (simp add: exact_def exact_length_fromPolar)
  from reachable_invariant [OF assms(1)] assms(2) l show ?thesis
    by (auto simp: plannerInvariant_def onFollowedAgentPositionChanged_def
          addPrivateSpace_def)
qed

theorem onFollowedAgentPositionChanged_hysteresis_witness:
  "onFollowedAgentPositionChanged exact 0 3.25 (exampleQueried 0 1)
     = Some (exampleQueried 0 1)
   \<and> onFollowedAgentPositionChanged exact 0 5 (exampleQueried 0 1) =
       Some ((exampleQueried 0 1)\<lparr>currentWaypoint :=
          Some \<lparr>wname = (''QueueHelper_A%1_Q%2'', [ArgInt 0, ArgStr ''Q'']),
                wpos = \<lparr>vx = 0, vy = 5.7\<rparr>\<rparr>\<rparr>)"
proof -
  have r: "reachable exact (exampleQueried 0 1)" by (rule reachable_exampleQueried)
  have c: "currentWaypoint (exampleQueried 0 1) =
             Some \<lparr>wname = (''QueueHelper_A%1_Q%2'', [ArgInt 0, ArgStr ''Q'']),
                   wpos = \<lparr>vx = 0, vy = 3.7\<rparr>\<rparr>"
    by (simp add: exampleQueried_0_1)
  have q: "waitingQueue (exampleQueried 0 1) = Some 1"
    and d: "qdir (queues (exampleQueried 0 1) 1) = - pi / 2"
    by (simp_all add: exampleQueried_0_1 exampleQueues_def)
  from onFollowedAgentPositionChanged_hysteresis
         [OF r c, where xIn = 0 and yIn = "3.25" and direction = 0]
    onFollowedAgentPositionChanged_hysteresis
         [OF r c, where xIn = 0 and yIn = 5 and direction = 0] q d
  show ?thesis
    by (simp add: exact_defs)
qed


section \<open>The followed agent leaves the queue\<close>

text \<open>
  C6. In a reachable state of phase Queued with a followed agent, a pass-permission
  event carrying the followed agent's id and not the controlled agent's id removes the
  connections to the followed agent's position signal and sets the position of the
  current target to the queue's position; everything else, in particular the followed
  agent and the queues, stays as it was. In the resulting state a position signal
  emitted by the old followed agent changes nothing.
\<close>

theorem followed_agent_may_pass:
  assumes "reachable ar w" and "status w = Queued" and "followedAgent w = Some f"
    and "i = aid (agents w f)"
    and "\<forall>a. agent w = Some a \<longrightarrow> i \<noteq> aid (agents w a)"
  shows "\<exists>q wp w'. waitingQueue w = Some q \<and> currentWaypoint w = Some wp
     \<and> onAgentMayPassQueue i w = Some w'
     \<and> w' = w\<lparr>connections := removeAll (PositionChangedConn f) (connections w),
               currentWaypoint := Some (wp\<lparr>wpos := qpos (queues w q)\<rparr>)\<rparr>
     \<and> followedAgent w' = Some f
     \<and> queues w' = queues w
     \<and> (\<forall>xIn yIn. emit ar (positionChanged f xIn yIn) w' = Some w')"
proof -
  from reachable_invariant [OF assms(1)] assms(2)
  obtain q wp where q: "waitingQueue w = Some q" and wp: "currentWaypoint w = Some wp"
    by (auto simp: plannerInvariant_def)
  define w' where "w' = w\<lparr>connections := removeAll (PositionChangedConn f) (connections w),
               currentWaypoint := Some (wp\<lparr>wpos := qpos (queues w q)\<rparr>)\<rparr>"
  have step: "onAgentMayPassQueue i w = Some w'"
    using assms(3-5) q wp
    by (auto simp: onAgentMayPassQueue_def isAgent_def onFollowedAgentLeftQueue_def
          disconnect_def Let_def w'_def split: option.splits)
  have "PositionChangedConn f \<notin> set (connections w')" by (simp add: w'_def)
  then have "\<forall>xIn yIn. emit ar (positionChanged f xIn yIn) w' = Some w'"
    by (simp add: emit_not_connected)
  with q wp step assms(3) show ?thesis by (simp add: w'_def)
qed

theorem followed_agent_may_pass_witness:
  "onAgentMayPassQueue 1 (exampleQueried 0 1) =
     Some ((exampleQueried 0 1)\<lparr>connections :=
               [AgentMayPassConn 1, QueueEndPositionChangedConn 1],
             currentWaypoint :=
               Some \<lparr>wname = (''QueueHelper_A%1_Q%2'', [ArgInt 0, ArgStr ''Q'']),
                     wpos = \<lparr>vx = 0, vy = 0\<rparr>\<rparr>\<rparr>)
   \<and> emit exact (positionChanged 1 0 50)
        ((exampleQueried 0 1)\<lparr>connections :=
               [AgentMayPassConn 1, QueueEndPositionChangedConn 1],
             currentWaypoint :=
               Some \<lparr>wname = (''QueueHelper_A%1_Q%2'', [ArgInt 0, ArgStr ''Q'']),
                     wpos = \<lparr>vx = 0, vy = 0\<rparr>\<rparr>\<rparr>)
       = Some ((exampleQueried 0 1)\<lparr>connections :=
               [AgentMayPassConn 1, QueueEndPositionChangedConn 1],
             currentWaypoint :=
               Some \<lparr>wname = (''QueueHelper_A%1_Q%2'', [ArgInt 0, ArgStr ''Q'']),
                     wpos = \<lparr>vx = 0, vy = 0\<rparr>\<rparr>\<rparr>)"
proof -
  have r: "reachable exact (exampleQueried 0 1)" by (rule reachable_exampleQueried)
  have s: "status (exampleQueried 0 1) = Queued"
    and f: "followedAgent (exampleQueried 0 1) = Some 1"
    and i: "1 = aid (agents (exampleQueried 0 1) 1)"
    and o: "\<forall>a. agent (exampleQueried 0 1) = Some a \<longrightarrow> 1 \<noteq> aid (agents (exampleQueried 0 1) a)"
    by (simp_all add: exampleQueried_0_1 exampleAgents_def)
  from followed_agent_may_pass [OF r s f i o] show ?thesis
    by (auto simp: exampleQueried_0_1 exampleQueues_def)
qed


section \<open>Pass permission for the controlled agent\<close>

text \<open>
  C2, as stated, fails: the handler disconnects the signals of the queue only. Agent 0,
  queued in queue 1 behind agent 1, receives its own pass permission while still
  connected to agent 1; the phase becomes MayPass, and when agent 1 then moves to
  (0,50) the target moves from (0,3.7) to (0,50.7).
\<close>

theorem own_pass_then_followed_moves_counterexample:
  "reachable exact (exampleQueried 0 1)
   \<and> emit exact (agentMayPass 1 0) (exampleQueried 0 1) = Some examplePassed
   \<and> status examplePassed = MayPass
   \<and> map_option wpos (currentWaypoint examplePassed) = Some \<lparr>vx = 0, vy = 3.7\<rparr>
   \<and> emit exact (positionChanged 1 0 50) examplePassed = Some exampleMoved
   \<and> status exampleMoved = MayPass
   \<and> waitingQueue exampleMoved = waitingQueue examplePassed
   \<and> map_option wpos (currentWaypoint exampleMoved) = Some \<lparr>vx = 0, vy = 50.7\<rparr>"
proof -
  have m: "emit exact (positionChanged 1 0 50) examplePassed =
             Some (examplePassed\<lparr>currentWaypoint :=
               Some \<lparr>wname = (''QueueHelper_A%1_Q%2'', [ArgInt 0, ArgStr ''Q'']),
                     wpos = \<lparr>vx = 0, vy = 50.7\<rparr>\<rparr>\<rparr>)"
    by (simp add: examplePassed_eq(2) exampleQueried_0_1 emit_def
          onFollowedAgentPositionChanged_def addPrivateSpace_def exampleQueues_def
          exact_defs)
  then have e: "exampleMoved = examplePassed\<lparr>currentWaypoint :=
               Some \<lparr>wname = (''QueueHelper_A%1_Q%2'', [ArgInt 0, ArgStr ''Q'']),
                     wpos = \<lparr>vx = 0, vy = 50.7\<rparr>\<rparr>\<rparr>"
    by (simp add: exampleMoved_def)
  have c1: "reachable exact (exampleQueried 0 1)" by (rule reachable_exampleQueried)
  have c2: "emit exact (agentMayPass 1 0) (exampleQueried 0 1) = Some examplePassed"
    by (rule examplePassed_eq)
  have c3: "status examplePassed = MayPass" by (simp add: examplePassed_eq(2))
  have c4: "map_option wpos (currentWaypoint examplePassed) = Some \<lparr>vx = 0, vy = 3.7\<rparr>"
    by (simp add: examplePassed_eq(2) exampleQueried_0_1)
  have c5: "emit exact (positionChanged 1 0 50) examplePassed = Some exampleMoved"
    by (simp only: m e)
  have c6: "status exampleMoved = MayPass" by (simp add: e c3)
  have c7: "waitingQueue exampleMoved = waitingQueue examplePassed" by (simp add: e)
  have c8: "map_option wpos (currentWaypoint exampleMoved) = Some \<lparr>vx = 0, vy = 50.7\<rparr>"
    by (simp add: e)
  from c1 c2 c3 c4 c5 c6 c7 c8 show ?thesis by (intro conjI)
qed


text \<open>
  C2. In a reachable state with a bound agent, a pass-permission event carrying that
  agent's id sets the phase to MayPass and leaves the target as it is; afterwards
  \<open>hasCompletedDestination\<close> answers true. In the state the event leaves, any run of
  emitted signals, each of them a signal of a queue or a signal the planner had no
  connection for before the event, leaves the whole state unchanged. And in every state
  that follows while no queue is assigned anew, whatever operations and events come in
  between, an emitted signal of a queue leaves the whole state unchanged.
\<close>

theorem own_pass_permission:
  assumes "reachable ar w" and "agent w = Some a" and "i = aid (agents w a)"
  shows "\<exists>w'. onAgentMayPassQueue i w = Some w'
     \<and> status w' = MayPass
     \<and> fst (hasCompletedDestination w')
     \<and> currentWaypoint w' = currentWaypoint w
     \<and> (\<forall>sigs. (\<forall>sig \<in> set sigs. isQueueSignal sig
                                    \<or> connectionOf sig \<notin> set (connections w))
           \<longrightarrow> emits ar sigs w' = Some w')
     \<and> (\<forall>v sig. sameAssignment ar w' v \<and> isQueueSignal sig \<longrightarrow> emit ar sig v = Some v)"
proof -
  define w' where "w' = disconnect (waitingQueue w) QueueEndPositionChangedConn
               (disconnect (waitingQueue w) AgentMayPassConn (w\<lparr>status := MayPass\<rparr>))"
  have step: "onAgentMayPassQueue i w = Some w'"
    using assms(2,3) by (simp add: onAgentMayPassQueue_def isAgent_def w'_def)
  have st: "status w' = MayPass" and cw: "currentWaypoint w' = currentWaypoint w"
    and sub: "set (connections w') \<subseteq> set (connections w)"
    by (auto simp: w'_def disconnect_def split: option.splits)
  have fin: "fst (hasCompletedDestination w')"
    using st by (simp add: hasCompletedDestination_def split: option.splits)
  have cur: "queueConnectionsCurrent w"
    using reachable_invariant [OF assms(1)] by (simp add: plannerInvariant_def)
  have silent: "queueSilent w'"
    using cur
    by (auto simp: queueSilent_def queueConnectionsCurrent_def w'_def disconnect_def
          split: option.splits)
  have noq: "connectionOf sig \<notin> set (connections w')" if "isQueueSignal sig" for sig
    using that silent by (cases sig) (auto simp: queueSilent_def)
  have run: "emits ar sigs w' = Some w'"
    if "\<forall>sig \<in> set sigs. isQueueSignal sig \<or> connectionOf sig \<notin> set (connections w)"
    for sigs
  proof (rule emits_not_connected, rule ballI)
    fix sig assume "sig \<in> set sigs"
    with that have "isQueueSignal sig \<or> connectionOf sig \<notin> set (connections w)" by blast
    then show "connectionOf sig \<notin> set (connections w')"
      using noq sub by blast
  qed
  have later: "emit ar sig v = Some v" if "sameAssignment ar w' v" and "isQueueSignal sig"
    for v sig
    using sameAssignment_silent [OF that(1) silent] that(2)
    by (rule silent_emit_queue_signal)
  from step st cw fin run later show ?thesis by blast
qed

theorem own_pass_permission_witness:
  "onAgentMayPassQueue 0 (exampleQueried 0 1) = Some examplePassed
   \<and> status examplePassed = MayPass
   \<and> fst (hasCompletedDestination examplePassed)
   \<and> currentWaypoint examplePassed = currentWaypoint (exampleQueried 0 1)
   \<and> emits exact [agentMayPass 1 1, queueEndPositionChanged 1 0 12, agentMayPass 1 0,
             positionChanged 2 0 21] examplePassed = Some examplePassed
   \<and> sameAssignment exact examplePassed exampleRequeried
   \<and> status exampleRequeried = Queued
   \<and> emit exact (agentMayPass 1 1) exampleRequeried = Some exampleRequeried
   \<and> emit exact (queueEndPositionChanged 1 0 12) exampleRequeried = Some exampleRequeried"
proof -
  have r: "reachable exact (exampleQueried 0 1)" by (rule reachable_exampleQueried)
  have a: "agent (exampleQueried 0 1) = Some 0"
    and i: "0 = aid (agents (exampleQueried 0 1) 0)"
    by (simp_all add: exampleQueried_0_1 exampleAgents_def)
  have p: "onAgentMayPassQueue 0 (exampleQueried 0 1) = Some examplePassed"
    by (simp add: examplePassed_eq(2) exampleQueried_0_1 onAgentMayPassQueue_def
          isAgent_def disconnect_def exampleAgents_def)
  have s: "\<forall>sig \<in> set [agentMayPass 1 1, queueEndPositionChanged 1 0 12, agentMayPass 1 0,
             positionChanged 2 0 21].
             isQueueSignal sig \<or> connectionOf sig \<notin> set (connections (exampleQueried 0 1))"
    by (simp add: exampleQueried_0_1)
  have n: "sameAssignment exact examplePassed exampleRequeried"
    by (rule sameAssignment.by_getCurrentWaypoint [OF sameAssignment.start
              exampleRequeried_step(1)])
  from own_pass_permission [OF r a i] obtain w' where
    w': "onAgentMayPassQueue 0 (exampleQueried 0 1) = Some w'"
    and c2: "status w' = MayPass"
    and c3: "fst (hasCompletedDestination w')"
    and c4: "currentWaypoint w' = currentWaypoint (exampleQueried 0 1)"
    and all: "\<forall>sigs. (\<forall>sig \<in> set sigs. isQueueSignal sig
                          \<or> connectionOf sig \<notin> set (connections (exampleQueried 0 1)))
           \<longrightarrow> emits exact sigs w' = Some w'"
    and later: "\<forall>v sig. sameAssignment exact w' v \<and> isQueueSignal sig
                  \<longrightarrow> emit exact sig v = Some v"
    by blast
  from w' p have eq: "w' = examplePassed" by simp
  from all s have c5: "emits exact [agentMayPass 1 1, queueEndPositionChanged 1 0 12,
                         agentMayPass 1 0, positionChanged 2 0 21] w' = Some w'"
    by blast
  from later n have c6: "emit exact (agentMayPass 1 1) exampleRequeried = Some exampleRequeried"
    and c7: "emit exact (queueEndPositionChanged 1 0 12) exampleRequeried
               = Some exampleRequeried"
    unfolding eq by simp_all
  from p c2 c3 c4 c5 n exampleRequeried_step(2) c6 c7 show ?thesis
    unfolding eq by (intro conjI)
qed


section \<open>Dissolving a cluster\<close>

text \<open>
  C10. \<open>dissolve\<close> returns \<open>nat (count c)\<close> agents, which is \<open>count c\<close> when the count
  is not negative; they are the fresh addresses following those in use, in order, and
  the agents that existed before are untouched. Every returned agent has the type of
  the cluster and exactly the waypoints of the cluster, in order, and when both the
  width and the height of the distribution are zero its position is that of the
  cluster. The returned agents are appended to the scene.
\<close>

theorem dissolve_creates_agents:
  assumes "dissolve rng c s = (as, s')"
  shows "length as = nat (count c)
     \<and> as = [allocated s ..< allocated s + nat (count c)]
     \<and> (\<forall>p < allocated s. heap s' p = heap s p)
     \<and> (\<forall>a \<in> set as.
           atype (heap s' a) = agentType c
           \<and> awaypoints (heap s' a) = waypoints c
           \<and> (distributionWidth c = 0 \<and> distributionHeight c = 0
                \<longrightarrow> apos (heap s' a) = position c))
     \<and> sceneAgents s' = sceneAgents s @ as"
  using dissolveLoop_effect [of rng c "nat (count c)" "[]" s as s'] assms
  by (auto simp: dissolve_def spawned_def)

theorem dissolve_creates_agents_witness:
  "fst (dissolve (\<lambda>n. 1 / 2) exampleCluster exampleScene) = [3, 4]
   \<and> atype (heap (snd (dissolve (\<lambda>n. 1 / 2) exampleCluster exampleScene)) 3) = 1
   \<and> awaypoints (heap (snd (dissolve (\<lambda>n. 1 / 2) exampleCluster exampleScene)) 3) = [5, 6]
   \<and> apos (heap (snd (dissolve (\<lambda>n. 1 / 2) exampleCluster exampleScene)) 3)
        = \<lparr>vx = 3, vy = 4\<rparr>
   \<and> atype (heap (snd (dissolve (\<lambda>n. 1 / 2) exampleCluster exampleScene)) 4) = 1
   \<and> awaypoints (heap (snd (dissolve (\<lambda>n. 1 / 2) exampleCluster exampleScene)) 4) = [5, 6]
   \<and> apos (heap (snd (dissolve (\<lambda>n. 1 / 2) exampleCluster exampleScene)) 4)
        = \<lparr>vx = 3, vy = 4\<rparr>
   \<and> heap (snd (dissolve (\<lambda>n. 1 / 2) exampleCluster exampleScene)) 2 = exampleAgents 2
   \<and> sceneAgents (snd (dissolve (\<lambda>n. 1 / 2) exampleCluster exampleScene)) = [0, 2, 3, 4]"
proof -
  have p: "dissolve (\<lambda>n. 1 / 2) exampleCluster exampleScene
             = (fst (dissolve (\<lambda>n. 1 / 2) exampleCluster exampleScene),
                snd (dissolve (\<lambda>n. 1 / 2) exampleCluster exampleScene))"
    by simp
  have u: "[allocated exampleScene ..< allocated exampleScene + nat (count exampleCluster)]
             = [3, 4]"
    by (simp add: exampleScene_def exampleCluster_def upt_rec)
  from dissolve_creates_agents [OF p] show ?thesis
    unfolding u by (simp add: exampleCluster_def exampleScene_def)
qed

end
